theory Spec2Isabelle
  imports Main
begin

section \<open>Python values, exceptions and timestamps\<close>

text \<open>
  Exceptions are values. Every class below derives from Python's \<^verbatim>\<open>Exception\<close>, so an
  \<^verbatim>\<open>except Exception\<close> handler catches each of them; \<open>HttpError\<close> is the calendar client's
  own failure, which the service methods catch and wrap.
\<close>

datatype py_exn =
    HttpError string
  | KeyError string
  | ValueError string
  | TypeError string
  | AttributeError string
  | Exception string

text \<open>\<^verbatim>\<open>str(e)\<close>: the message; a \<^verbatim>\<open>KeyError\<close> prints its key in quotes.\<close>

fun str_exn :: "py_exn \<Rightarrow> string" where
  "str_exn (HttpError m) = m"
| "str_exn (KeyError k) = [CHR 0x27] @ k @ [CHR 0x27]"
| "str_exn (ValueError m) = m"
| "str_exn (TypeError m) = m"
| "str_exn (AttributeError m) = m"
| "str_exn (Exception m) = m"

text \<open>
  A naive \<^verbatim>\<open>datetime\<close> at second precision is the number of seconds on one fixed time line;
  comparison is \<open>\<le>\<close> and adding a \<^verbatim>\<open>timedelta\<close> is \<open>+\<close>. Fractions of a second, and the
  ends of Python's range of dates (years 1 to 9999, past which an addition raises
  \<^verbatim>\<open>OverflowError\<close>), are outside the model.
\<close>

type_synonym datetime = int

text \<open>\<^verbatim>\<open>timedelta(minutes=duration_minutes)\<close>, in seconds.\<close>

definition timedelta_minutes :: "int \<Rightarrow> int" where
  "timedelta_minutes duration_minutes = 60 * duration_minutes"

text \<open>
  The two library parsers are parameters of the model. \<open>strptime\<close> stands for
  \<^verbatim>\<open>datetime.strptime(date, '%Y-%m-%d')\<close> and gives midnight of the date;
  \<open>fromisoformat\<close> stands for \<^verbatim>\<open>datetime.fromisoformat(s).replace(tzinfo=None)\<close>.
  Both give \<open>None\<close> where Python raises \<^verbatim>\<open>ValueError\<close>.
\<close>

type_synonym parser = "string \<Rightarrow> datetime option"

text \<open>\<^verbatim>\<open>s.replace('Z', '+00:00')\<close>: every occurrence of the character is replaced.\<close>

definition replace_Z :: "string \<Rightarrow> string" where
  "replace_Z s = concat (map (\<lambda>c. if c = CHR ''Z'' then ''+00:00'' else [c]) s)"

text \<open>\<^verbatim>\<open>s + 'Z' if not s.endswith('Z') else s\<close>\<close>

definition with_Z :: "string \<Rightarrow> string" where
  "with_Z s = (if s \<noteq> [] \<and> last s = CHR ''Z'' then s else s @ ''Z'')"

section \<open>The calendar backend\<close>

text \<open>
  An event of the backend's listing. \<open>ev_start\<close> and \<open>ev_end\<close> are the sub-dictionaries
  \<^verbatim>\<open>event['start']\<close> and \<^verbatim>\<open>event['end']\<close> (\<open>None\<close>: the key is missing), each with optional
  \<^verbatim>\<open>dateTime\<close> and \<^verbatim>\<open>date\<close> entries.
\<close>

record event_time =
  dateTime :: "string option"
  date :: "string option"

record event =
  ev_start :: "event_time option"
  ev_end :: "event_time option"
  ev_summary :: "string option"

text \<open>
  \<^verbatim>\<open>service.events().list(calendarId, timeMin, timeMax, singleEvents=True,
  orderBy='startTime').execute()\<close>: the backend is a function of \<open>timeMin\<close> and \<open>timeMax\<close>;
  it fails with an exception or gives a response whose \<^verbatim>\<open>items\<close> key may be missing.
\<close>

type_synonym backend = "string \<Rightarrow> string \<Rightarrow> py_exn + event list option"

text \<open>\<^verbatim>\<open>events_result.get('items', [])\<close>\<close>

definition items :: "event list option \<Rightarrow> event list" where
  "items events_result = (case events_result of None \<Rightarrow> [] | Some evs \<Rightarrow> evs)"

text \<open>\<^verbatim>\<open>except HttpError as e: raise Exception(prefix + str(e))\<close>; anything else propagates.\<close>

definition wrap_http :: "string \<Rightarrow> py_exn \<Rightarrow> py_exn" where
  "wrap_http prefix e = (case e of HttpError m \<Rightarrow> Exception (prefix @ m) | _ \<Rightarrow> e)"

subsection \<open>check_availability\<close>

definition check_availability :: "backend \<Rightarrow> string \<Rightarrow> string \<Rightarrow> py_exn + bool" where
  "check_availability service start_time end_time =
     (let time_min = with_Z start_time;
          time_max = with_Z end_time
      in case service time_min time_max of
           Inl e \<Rightarrow> Inl (wrap_http ''Failed to check availability: '' e)
         | Inr events_result \<Rightarrow> Inr (length (items events_result) = 0))"

subsection \<open>get_busy_times\<close>

record busy_time =
  b_start :: "string option"
  b_end :: "string option"
  b_summary :: string

text \<open>\<^verbatim>\<open>event[key].get('dateTime', event[key].get('date'))\<close>\<close>

definition time_of :: "string \<Rightarrow> event_time option \<Rightarrow> py_exn + string option" where
  "time_of key t =
     (case t of
        None \<Rightarrow> Inl (KeyError key)
      | Some d \<Rightarrow> Inr (case dateTime d of Some s \<Rightarrow> Some s | None \<Rightarrow> date d))"

fun busy_times_loop :: "event list \<Rightarrow> busy_time list \<Rightarrow> py_exn + busy_time list" where
  "busy_times_loop [] busy_times = Inr busy_times"
| "busy_times_loop (ev # events) busy_times =
     (case time_of ''start'' (ev_start ev) of
        Inl e \<Rightarrow> Inl e
      | Inr start \<Rightarrow>
          (case time_of ''end'' (ev_end ev) of
             Inl e \<Rightarrow> Inl e
           | Inr en \<Rightarrow>
               busy_times_loop events
                 (busy_times @
                  [\<lparr>b_start = start, b_end = en,
                    b_summary = (case ev_summary ev of None \<Rightarrow> ''Busy'' | Some s \<Rightarrow> s)\<rparr>])))"

definition get_busy_times :: "backend \<Rightarrow> string \<Rightarrow> py_exn + busy_time list" where
  "get_busy_times service dt =
     (let time_min = dt @ ''T00:00:00Z'';
          time_max = dt @ ''T23:59:59Z''
      in case service time_min time_max of
           Inl e \<Rightarrow> Inl (wrap_http ''Failed to get busy times: '' e)
         | Inr events_result \<Rightarrow>
             (case busy_times_loop (items events_result) [] of
                Inl e \<Rightarrow> Inl (wrap_http ''Failed to get busy times: '' e)
              | Inr busy_times \<Rightarrow> Inr busy_times))"

section \<open>suggest_time_slots\<close>

record slot =
  slot_start :: datetime
  slot_end :: datetime
  slot_duration_minutes :: int

text \<open>
  The dictionary appended to \<^verbatim>\<open>available_slots\<close>. The source renders both ends with
  \<^verbatim>\<open>strftime('%Y-%m-%dT%H:%M:%S')\<close>, which at second precision is one-to-one; the model keeps
  the timestamps themselves.
\<close>

definition make_slot :: "datetime \<Rightarrow> int \<Rightarrow> slot" where
  "make_slot current_time duration_minutes =
     \<lparr>slot_start = current_time,
      slot_end = current_time + timedelta_minutes duration_minutes,
      slot_duration_minutes = duration_minutes\<rparr>"

subsection \<open>Converting busy times to datetime pairs\<close>

text \<open>
  One pass of the conversion loop's body: \<open>None\<close> is \<^verbatim>\<open>continue\<close>, taken for an all-day entry
  (no \<^verbatim>\<open>'T'\<close> in the start) and from the inner \<^verbatim>\<open>except Exception\<close>, which is reached when the
  start is \<^verbatim>\<open>None\<close> (\<^verbatim>\<open>'T' in None\<close> is a \<^verbatim>\<open>TypeError\<close>), when the end is \<^verbatim>\<open>None\<close>
  (\<^verbatim>\<open>AttributeError\<close>) and when a timestamp does not parse (\<^verbatim>\<open>ValueError\<close>).
\<close>

definition busy_period :: "parser \<Rightarrow> busy_time \<Rightarrow> (datetime \<times> datetime) option" where
  "busy_period fromisoformat busy =
     (case b_start busy of
        None \<Rightarrow> None
      | Some s \<Rightarrow>
          if CHR ''T'' \<in> set s then
            (case fromisoformat (replace_Z s) of
               None \<Rightarrow> None
             | Some start \<Rightarrow>
                 (case b_end busy of
                    None \<Rightarrow> None
                  | Some e \<Rightarrow>
                      (case fromisoformat (replace_Z e) of
                         None \<Rightarrow> None
                       | Some en \<Rightarrow> Some (start, en))))
          else None)"

fun busy_periods_loop ::
  "parser \<Rightarrow> busy_time list \<Rightarrow> (datetime \<times> datetime) list \<Rightarrow> (datetime \<times> datetime) list" where
  "busy_periods_loop fromisoformat [] busy_periods = busy_periods"
| "busy_periods_loop fromisoformat (busy # busy_times) busy_periods =
     busy_periods_loop fromisoformat busy_times
       (case busy_period fromisoformat busy of
          None \<Rightarrow> busy_periods
        | Some p \<Rightarrow> busy_periods @ [p])"

text \<open>
  The loop followed by \<^verbatim>\<open>busy_periods.sort(key=lambda x: x[0])\<close>. Python's sort is stable, and
  so is \<open>sort_key\<close>.
\<close>

definition normalize_busy :: "parser \<Rightarrow> busy_time list \<Rightarrow> (datetime \<times> datetime) list" where
  "normalize_busy fromisoformat busy_times =
     sort_key fst (busy_periods_loop fromisoformat busy_times [])"

subsection \<open>The sweep\<close>

text \<open>The \<^verbatim>\<open>for busy_start, busy_end in busy_periods\<close> loop on the state
  \<open>(available_slots, current_time)\<close>.\<close>

fun sweep ::
  "int \<Rightarrow> (datetime \<times> datetime) list \<Rightarrow> slot list \<times> datetime \<Rightarrow> slot list \<times> datetime" where
  "sweep duration_minutes [] st = st"
| "sweep duration_minutes ((busy_start, busy_end) # busy_periods) (available_slots, current_time) =
     sweep duration_minutes busy_periods
       (if current_time + timedelta_minutes duration_minutes \<le> busy_start
        then available_slots @ [make_slot current_time duration_minutes]
        else available_slots,
        max current_time busy_end)"

text \<open>The list \<^verbatim>\<open>available_slots\<close> as it stands before the final slice: the sweep from
  \<open>start_of_day\<close>, then the check after the last busy period.\<close>

definition candidate_slots ::
  "datetime \<Rightarrow> datetime \<Rightarrow> int \<Rightarrow> (datetime \<times> datetime) list \<Rightarrow> slot list" where
  "candidate_slots start_of_day end_of_day duration_minutes busy_periods =
     (case sweep duration_minutes busy_periods ([], start_of_day) of
        (available_slots, current_time) \<Rightarrow>
          if current_time + timedelta_minutes duration_minutes \<le> end_of_day
          then available_slots @ [make_slot current_time duration_minutes]
          else available_slots)"

text \<open>\<^verbatim>\<open>available_slots[:n]\<close>\<close>

definition first_n :: "nat \<Rightarrow> 'a list \<Rightarrow> 'a list" where
  "first_n n xs = take n xs"

text \<open>\<^verbatim>\<open>date_obj.replace(hour=h, minute=0, second=0, microsecond=0)\<close> on a midnight
  \<open>date_obj\<close>; an hour outside 0..23 is a \<^verbatim>\<open>ValueError\<close>.\<close>

definition replace_hour :: "datetime \<Rightarrow> int \<Rightarrow> py_exn + datetime" where
  "replace_hour date_obj h =
     (if 0 \<le> h \<and> h \<le> 23 then Inr (date_obj + 3600 * h)
      else Inl (ValueError ''hour must be in 0..23''))"

text \<open>The \<^verbatim>\<open>try\<close> block from the line after \<^verbatim>\<open>busy_times = self.get_busy_times(date)\<close>
  to the \<^verbatim>\<open>return\<close>: the computation on the busy times already fetched.\<close>

definition slots_from_busy_times ::
  "parser \<Rightarrow> parser \<Rightarrow> string \<Rightarrow> int \<Rightarrow> int \<Rightarrow> int \<Rightarrow> busy_time list \<Rightarrow> py_exn + slot list" where
  "slots_from_busy_times strptime fromisoformat dt duration_minutes
       preferred_start_hour preferred_end_hour busy_times =
     (case strptime dt of
        None \<Rightarrow> Inl (ValueError ''time data does not match format'')
      | Some date_obj \<Rightarrow>
          (case replace_hour date_obj preferred_start_hour of
             Inl e \<Rightarrow> Inl e
           | Inr start_of_day \<Rightarrow>
               (case replace_hour date_obj preferred_end_hour of
                  Inl e \<Rightarrow> Inl e
                | Inr end_of_day \<Rightarrow>
                    Inr (first_n 5
                          (candidate_slots start_of_day end_of_day duration_minutes
                             (normalize_busy fromisoformat busy_times))))))"

text \<open>The whole body of the \<^verbatim>\<open>try\<close> block.\<close>

definition suggest_time_slots_body ::
  "backend \<Rightarrow> parser \<Rightarrow> parser \<Rightarrow> string \<Rightarrow> int \<Rightarrow> int \<Rightarrow> int \<Rightarrow> py_exn + slot list" where
  "suggest_time_slots_body service strptime fromisoformat dt duration_minutes
       preferred_start_hour preferred_end_hour =
     (case get_busy_times service dt of
        Inl e \<Rightarrow> Inl e
      | Inr busy_times \<Rightarrow>
          slots_from_busy_times strptime fromisoformat dt duration_minutes
            preferred_start_hour preferred_end_hour busy_times)"

text \<open>\<^verbatim>\<open>except Exception as e: raise Exception(f"Failed to suggest time slots: {str(e)}")\<close>\<close>

definition suggest_time_slots ::
  "backend \<Rightarrow> parser \<Rightarrow> parser \<Rightarrow> string \<Rightarrow> int \<Rightarrow> int \<Rightarrow> int \<Rightarrow> py_exn + slot list" where
  "suggest_time_slots service strptime fromisoformat dt duration_minutes
       preferred_start_hour preferred_end_hour =
     (case suggest_time_slots_body service strptime fromisoformat dt duration_minutes
             preferred_start_hour preferred_end_hour of
        Inl e \<Rightarrow> Inl (Exception (''Failed to suggest time slots: '' @ str_exn e))
      | Inr slots \<Rightarrow> Inr slots)"

subsection \<open>The sweep as slots and cursor\<close>

text \<open>The two components of the loop's final state, each by its own recursion: the slots
  appended during the loop and the value of \<^verbatim>\<open>current_time\<close> after it.\<close>

fun gap_slots :: "int \<Rightarrow> datetime \<Rightarrow> (datetime \<times> datetime) list \<Rightarrow> slot list" where
  "gap_slots d c [] = []"
| "gap_slots d c ((bs, be) # rest) =
     (if c + timedelta_minutes d \<le> bs then [make_slot c d] else []) @ gap_slots d (max c be) rest"

fun final_cursor :: "datetime \<Rightarrow> (datetime \<times> datetime) list \<Rightarrow> datetime" where
  "final_cursor c [] = c"
| "final_cursor c ((bs, be) # rest) = final_cursor (max c be) rest"

subsection \<open>Properties of slots\<close>

definition slots_overlap :: "slot \<Rightarrow> slot \<Rightarrow> bool" where
  "slots_overlap a b \<longleftrightarrow> slot_start a < slot_end b \<and> slot_start b < slot_end a"

definition overlaps_busy :: "slot \<Rightarrow> datetime \<times> datetime \<Rightarrow> bool" where
  "overlaps_busy x p \<longleftrightarrow> slot_start x < snd p \<and> fst p < slot_end x"

definition within_window :: "datetime \<Rightarrow> datetime \<Rightarrow> slot \<Rightarrow> bool" where
  "within_window start_of_day end_of_day x \<longleftrightarrow>
     start_of_day \<le> slot_start x \<and> slot_end x \<le> end_of_day"

text \<open>What the conversion loop skips, in the words of the interface: an all-day entry has a
  date-only start; an entry is unparsable when its start or its end is missing or is rejected
  by the parser.\<close>

definition all_day :: "busy_time \<Rightarrow> bool" where
  "all_day busy = (case b_start busy of None \<Rightarrow> False | Some s \<Rightarrow> CHR ''T'' \<notin> set s)"

definition unparsable_time :: "parser \<Rightarrow> string option \<Rightarrow> bool" where
  "unparsable_time fromisoformat t =
     (case t of None \<Rightarrow> True | Some s \<Rightarrow> fromisoformat (replace_Z s) = None)"

definition malformed :: "parser \<Rightarrow> busy_time \<Rightarrow> bool" where
  "malformed fromisoformat busy \<longleftrightarrow>
     all_day busy \<or> unparsable_time fromisoformat (b_start busy)
       \<or> unparsable_time fromisoformat (b_end busy)"

text \<open>A busy period whose end is not before its start, and one of positive length.\<close>

definition oriented :: "datetime \<times> datetime \<Rightarrow> bool" where
  "oriented p \<longleftrightarrow> fst p \<le> snd p"

definition proper_period :: "datetime \<times> datetime \<Rightarrow> bool" where
  "proper_period p \<longleftrightarrow> fst p < snd p"

subsection \<open>The variant with an explicit merge step\<close>

text \<open>
  The usual merge of intervals sorted by start: the running interval absorbs the next one
  while the next one starts before the running end, and is emitted otherwise. The flag
  \<open>touching\<close> says whether an interval that starts exactly at the running end is absorbed
  too.
\<close>

fun merge_from ::
  "bool \<Rightarrow> datetime \<times> datetime \<Rightarrow> (datetime \<times> datetime) list \<Rightarrow> (datetime \<times> datetime) list" where
  "merge_from touching (s, e) [] = [(s, e)]"
| "merge_from touching (s, e) ((s', e') # rest) =
     (if s' < e \<or> (touching \<and> s' = e)
      then merge_from touching (s, max e e') rest
      else (s, e) # merge_from touching (s', e') rest)"

definition merge_busy :: "bool \<Rightarrow> (datetime \<times> datetime) list \<Rightarrow> (datetime \<times> datetime) list" where
  "merge_busy touching busy_periods =
     (case busy_periods of [] \<Rightarrow> [] | p # rest \<Rightarrow> merge_from touching p rest)"

text \<open>Sort, merge, then the same sweep and tail check.\<close>

definition candidate_slots_merged ::
  "bool \<Rightarrow> datetime \<Rightarrow> datetime \<Rightarrow> int \<Rightarrow> (datetime \<times> datetime) list \<Rightarrow> slot list" where
  "candidate_slots_merged touching start_of_day end_of_day duration_minutes busy_periods =
     candidate_slots start_of_day end_of_day duration_minutes (merge_busy touching busy_periods)"

section \<open>The orchestrator's action boundary\<close>

datatype jv = JNull | JBool bool | JInt int | JStr string | JList "jv list" | JObj "(string \<times> jv) list"

text \<open>The calendar service as the orchestrator sees it: four methods, each returning or
  raising.\<close>

record calendar_service =
  svc_check_availability :: "jv \<Rightarrow> jv \<Rightarrow> py_exn + bool"
  svc_suggest_time_slots :: "jv \<Rightarrow> jv \<Rightarrow> jv \<Rightarrow> jv \<Rightarrow> py_exn + jv list"
  svc_create_event :: "jv \<Rightarrow> jv \<Rightarrow> jv \<Rightarrow> jv \<Rightarrow> jv \<Rightarrow> py_exn + jv"
  svc_get_events :: "jv \<Rightarrow> py_exn + jv list"

text \<open>\<^verbatim>\<open>arguments[key]\<close> and \<^verbatim>\<open>arguments.get(key, default)\<close>\<close>

definition subscript :: "(string \<rightharpoonup> jv) \<Rightarrow> string \<Rightarrow> py_exn + jv" where
  "subscript arguments key = (case arguments key of None \<Rightarrow> Inl (KeyError key) | Some v \<Rightarrow> Inr v)"

definition get_default :: "(string \<rightharpoonup> jv) \<Rightarrow> string \<Rightarrow> jv \<Rightarrow> jv" where
  "get_default arguments key dflt = (case arguments key of None \<Rightarrow> dflt | Some v \<Rightarrow> v)"

text \<open>\<^verbatim>\<open>str(n)\<close> for the length of a list.\<close>

fun str_nat :: "nat \<Rightarrow> string" where
  "str_nat n =
     (if n < 10 then [char_of (48 + n)] else str_nat (n div 10) @ [char_of (48 + n mod 10)])"

text \<open>The body of the \<^verbatim>\<open>try\<close> block of \<^verbatim>\<open>_execute_function\<close>.\<close>

definition execute_function_body ::
  "calendar_service \<Rightarrow> string \<Rightarrow> (string \<rightharpoonup> jv) \<Rightarrow> py_exn + (string \<times> jv) list" where
  "execute_function_body calendar_service function_name arguments =
     (if function_name = ''check_availability'' then
        (case subscript arguments ''start_time'' of
           Inl e \<Rightarrow> Inl e
         | Inr start_time \<Rightarrow>
             (case subscript arguments ''end_time'' of
                Inl e \<Rightarrow> Inl e
              | Inr end_time \<Rightarrow>
                  (case svc_check_availability calendar_service start_time end_time of
                     Inl e \<Rightarrow> Inl e
                   | Inr is_available \<Rightarrow>
                       Inr [(''success'', JBool True),
                            (''available'', JBool is_available),
                            (''message'', JStr (''Time slot is '' @
                               (if is_available then ''available'' else ''not available'')))])))
      else if function_name = ''suggest_time_slots'' then
        (case subscript arguments ''date'' of
           Inl e \<Rightarrow> Inl e
         | Inr dt \<Rightarrow>
             (case svc_suggest_time_slots calendar_service dt
                     (get_default arguments ''duration_minutes'' (JInt 60))
                     (get_default arguments ''preferred_start_hour'' (JInt 9))
                     (get_default arguments ''preferred_end_hour'' (JInt 17)) of
                Inl e \<Rightarrow> Inl e
              | Inr slots \<Rightarrow>
                  Inr [(''success'', JBool True),
                       (''slots'', JList slots),
                       (''message'', JStr (''Found '' @ str_nat (length slots) @
                          '' available time slots''))]))
      else if function_name = ''create_appointment'' then
        (case subscript arguments ''summary'' of
           Inl e \<Rightarrow> Inl e
         | Inr summary \<Rightarrow>
             (case subscript arguments ''start_time'' of
                Inl e \<Rightarrow> Inl e
              | Inr start_time \<Rightarrow>
                  (case subscript arguments ''end_time'' of
                     Inl e \<Rightarrow> Inl e
                   | Inr end_time \<Rightarrow>
                       (case svc_create_event calendar_service summary start_time end_time
                               (get_default arguments ''description'' (JStr []))
                               (get_default arguments ''attendee_email'' (JStr [])) of
                          Inl e \<Rightarrow> Inl e
                        | Inr ev \<Rightarrow>
                            Inr [(''success'', JBool True),
                                 (''event'', ev),
                                 (''message'', JStr ''Appointment created successfully'')]))))
      else if function_name = ''get_upcoming_events'' then
        (case svc_get_events calendar_service (get_default arguments ''max_results'' (JInt 10)) of
           Inl e \<Rightarrow> Inl e
         | Inr events \<Rightarrow>
             Inr [(''success'', JBool True),
                  (''events'', JList events),
                  (''message'', JStr (''Retrieved '' @ str_nat (length events) @
                     '' upcoming events''))])
      else
        Inr [(''success'', JBool False),
             (''error'', JStr (''Unknown function: '' @ function_name))])"

text \<open>\<^verbatim>\<open>_execute_function\<close>: the body under \<^verbatim>\<open>except Exception as e\<close>, whose handler returns
  the failure dictionary. \<open>Inl\<close> would be an exception leaving the method.\<close>

definition execute_function ::
  "calendar_service \<Rightarrow> string \<Rightarrow> (string \<rightharpoonup> jv) \<Rightarrow> py_exn + (string \<times> jv) list" where
  "execute_function calendar_service function_name arguments =
     (case execute_function_body calendar_service function_name arguments of
        Inl e \<Rightarrow> Inr [(''success'', JBool False), (''error'', JStr (str_exn e))]
      | Inr result \<Rightarrow> Inr result)"

text \<open>The two shapes of a returned dictionary: \<^verbatim>\<open>success\<close> true with a payload entry and
  a message, or \<^verbatim>\<open>success\<close> false with an error string.\<close>

definition is_str :: "jv option \<Rightarrow> bool" where
  "is_str v = (case v of Some (JStr m) \<Rightarrow> True | _ \<Rightarrow> False)"

definition has_payload :: "(string \<times> jv) list \<Rightarrow> bool" where
  "has_payload r \<longleftrightarrow>
     map_of r ''available'' \<noteq> None \<or> map_of r ''slots'' \<noteq> None \<or>
     map_of r ''event'' \<noteq> None \<or> map_of r ''events'' \<noteq> None"

definition success_result :: "(string \<times> jv) list \<Rightarrow> bool" where
  "success_result r \<longleftrightarrow>
     map_of r ''success'' = Some (JBool True) \<and> has_payload r \<and> is_str (map_of r ''message'')"

definition failure_result :: "(string \<times> jv) list \<Rightarrow> bool" where
  "failure_result r \<longleftrightarrow>
     map_of r ''success'' = Some (JBool False) \<and> is_str (map_of r ''error'')"

text \<open>A calendar service all of whose methods raise.\<close>

definition failing_service :: calendar_service where
  "failing_service =
     \<lparr>svc_check_availability = (\<lambda>s e. Inl (Exception ''Failed to check availability: timeout'')),
      svc_suggest_time_slots = (\<lambda>dt d s e. Inl (Exception ''Failed to suggest time slots: timeout'')),
      svc_create_event = (\<lambda>su s e d a. Inl (Exception ''Failed to create event: timeout'')),
      svc_get_events = (\<lambda>n. Inl (Exception ''Failed to get events: timeout''))\<rparr>"

section \<open>A sample day\<close>

text \<open>Monday 2024-01-15, with seconds counted from its midnight: 09:00 is 32400 and 17:00
  is 61200.\<close>

definition sample_strptime :: parser where
  "sample_strptime = map_of [(''2024-01-15'', 0)]"

definition sample_fromisoformat :: parser where
  "sample_fromisoformat = map_of
     [(''2024-01-15T08:00:00+00:00'', 28800),
      (''2024-01-15T09:00:00+00:00'', 32400),
      (''2024-01-15T09:15:00+00:00'', 33300),
      (''2024-01-15T09:30:00+00:00'', 34200),
      (''2024-01-15T10:00:00+00:00'', 36000),
      (''2024-01-15T11:00:00+00:00'', 39600),
      (''2024-01-15T12:00:00+00:00'', 43200),
      (''2024-01-15T13:00:00+00:00'', 46800),
      (''2024-01-15T14:00:00+00:00'', 50400),
      (''2024-01-15T15:00:00+00:00'', 54000),
      (''2024-01-15T16:00:00+00:00'', 57600),
      (''2024-01-15T16:30:00+00:00'', 59400),
      (''2024-01-15T17:00:00+00:00'', 61200),
      (''2024-01-15T18:00:00+00:00'', 64800),
      (''2024-01-15T19:00:00+00:00'', 68400),
      (''2024-01-15T20:00:00+00:00'', 72000),
      (''2024-01-15T21:00:00+00:00'', 75600)]"

definition timed_event :: "string \<Rightarrow> string \<Rightarrow> event" where
  "timed_event s e =
     \<lparr>ev_start = Some \<lparr>dateTime = Some s, date = None\<rparr>,
      ev_end = Some \<lparr>dateTime = Some e, date = None\<rparr>,
      ev_summary = None\<rparr>"

definition timed_busy :: "string \<Rightarrow> string \<Rightarrow> busy_time" where
  "timed_busy s e = \<lparr>b_start = Some s, b_end = Some e, b_summary = ''Busy''\<rparr>"

text \<open>A backend that lists the given events for every range.\<close>

definition listing :: "event list \<Rightarrow> backend" where
  "listing evs = (\<lambda>time_min time_max. Inr (Some evs))"

definition all_day_event :: "string \<Rightarrow> string \<Rightarrow> event" where
  "all_day_event s e =
     \<lparr>ev_start = Some \<lparr>dateTime = None, date = Some s\<rparr>,
      ev_end = Some \<lparr>dateTime = None, date = Some e\<rparr>,
      ev_summary = Some ''Holiday''\<rparr>"

text \<open>Six one-hour meetings, every other hour from 09:00 to 20:00.\<close>

definition alternating_day :: "busy_time list" where
  "alternating_day =
     [timed_busy ''2024-01-15T09:00:00Z'' ''2024-01-15T10:00:00Z'',
      timed_busy ''2024-01-15T11:00:00Z'' ''2024-01-15T12:00:00Z'',
      timed_busy ''2024-01-15T13:00:00Z'' ''2024-01-15T14:00:00Z'',
      timed_busy ''2024-01-15T15:00:00Z'' ''2024-01-15T16:00:00Z'',
      timed_busy ''2024-01-15T17:00:00Z'' ''2024-01-15T18:00:00Z'',
      timed_busy ''2024-01-15T19:00:00Z'' ''2024-01-15T20:00:00Z'']"

text \<open>One meeting from 10:00 to 11:00 among an entry whose start is not an ISO timestamp,
  an all-day entry and an entry without timestamps.\<close>

definition mixed_day :: "busy_time list" where
  "mixed_day =
     [\<lparr>b_start = Some ''Tuesday morning'', b_end = Some ''2024-01-15T12:00:00Z'',
       b_summary = ''Busy''\<rparr>,
      timed_busy ''2024-01-15T10:00:00Z'' ''2024-01-15T11:00:00Z'',
      \<lparr>b_start = Some ''2024-01-15'', b_end = Some ''2024-01-16'', b_summary = ''Holiday''\<rparr>,
      \<lparr>b_start = None, b_end = None, b_summary = ''Busy''\<rparr>]"


section \<open>Facts about the sweep\<close>

lemma sweep_eq: "sweep d bp (acc, c) = (acc @ gap_slots d c bp, final_cursor c bp)"
  by (induction bp arbitrary: acc c) auto

lemma candidate_slots_eq:
  "candidate_slots ws we d bp =
     gap_slots d ws bp @
     (if final_cursor ws bp + timedelta_minutes d \<le> we then [make_slot (final_cursor ws bp) d] else [])"
  by (simp add: candidate_slots_def sweep_eq)

lemma final_cursor_ge: "c \<le> final_cursor c bp"
proof (induction bp arbitrary: c)
  case Nil
  then show ?case by simp
next
  case (Cons p rest)
  obtain s e where p: "p = (s, e)" by (cases p)
  have "c \<le> max c e" by simp
  also have "\<dots> \<le> final_cursor (max c e) rest" by (rule Cons.IH)
  finally show ?case using p by simp
qed

lemma final_cursor_ge_end: "(bs, be) \<in> set bp \<Longrightarrow> be \<le> final_cursor c bp"
proof (induction bp arbitrary: c)
  case Nil
  then show ?case by simp
next
  case (Cons p rest)
  obtain s e where p: "p = (s, e)" by (cases p)
  show ?case
  proof (cases "(bs, be) = p")
    case True
    then have "be \<le> max c e" using p by simp
    also have "\<dots> \<le> final_cursor (max c e) rest" by (rule final_cursor_ge)
    finally show ?thesis using p by simp
  next
    case False
    then have "(bs, be) \<in> set rest" using Cons.prems by simp
    then show ?thesis using Cons.IH p by simp
  qed
qed

lemma gap_slots_start_ge: "x \<in> set (gap_slots d c bp) \<Longrightarrow> c \<le> slot_start x"
proof (induction bp arbitrary: c)
  case Nil
  then show ?case by simp
next
  case (Cons p rest)
  obtain s e where p: "p = (s, e)" by (cases p)
  from Cons.prems p consider "x = make_slot c d" | "x \<in> set (gap_slots d (max c e) rest)"
    by (auto split: if_splits)
  then show ?case
  proof cases
    case 1
    then show ?thesis by (simp add: make_slot_def)
  next
    case 2
    then have "max c e \<le> slot_start x" by (rule Cons.IH)
    then show ?thesis by simp
  qed
qed

lemma gap_slots_start_le: "x \<in> set (gap_slots d c bp) \<Longrightarrow> slot_start x \<le> final_cursor c bp"
proof (induction bp arbitrary: c)
  case Nil
  then show ?case by simp
next
  case (Cons p rest)
  obtain s e where p: "p = (s, e)" by (cases p)
  from Cons.prems p consider "x = make_slot c d" | "x \<in> set (gap_slots d (max c e) rest)"
    by (auto split: if_splits)
  then show ?case
  proof cases
    case 1
    have "c \<le> max c e" by simp
    also have "\<dots> \<le> final_cursor (max c e) rest" by (rule final_cursor_ge)
    finally show ?thesis using 1 p by (simp add: make_slot_def)
  next
    case 2
    then show ?thesis using Cons.IH p by simp
  qed
qed

lemma gap_slots_shape:
  "x \<in> set (gap_slots d c bp) \<Longrightarrow>
     slot_end x = slot_start x + timedelta_minutes d \<and> slot_duration_minutes x = d"
  by (induction bp arbitrary: c) (auto simp: make_slot_def split: if_splits)

lemma length_gap_slots: "length (gap_slots d c bp) \<le> length bp"
proof (induction bp arbitrary: c)
  case Nil
  then show ?case by simp
next
  case (Cons p rest)
  obtain s e where p: "p = (s, e)" by (cases p)
  have "length (gap_slots d (max c e) rest) \<le> length rest" by (rule Cons.IH)
  then show ?case using p by simp
qed

lemma length_candidate_slots: "length (candidate_slots ws we d bp) \<le> length bp + 1"
  using length_gap_slots [of d ws bp] by (simp add: candidate_slots_eq)

lemma sorted_gap_slots: "sorted_wrt (\<lambda>a b. slot_start a \<le> slot_start b) (gap_slots d c bp)"
proof (induction bp arbitrary: c)
  case Nil
  then show ?case by simp
next
  case (Cons p rest)
  obtain s e where p: "p = (s, e)" by (cases p)
  have later: "c \<le> slot_start x" if "x \<in> set (gap_slots d (max c e) rest)" for x
    using gap_slots_start_ge [OF that] by simp
  show ?case using p Cons.IH [of "max c e"] later by (simp add: make_slot_def)
qed

lemma sorted_candidate_slots:
  "sorted_wrt (\<lambda>a b. slot_start a \<le> slot_start b) (candidate_slots ws we d bp)"
  using sorted_gap_slots [of d ws bp] gap_slots_start_le [of _ d ws bp]
  by (auto simp: candidate_slots_eq sorted_wrt_append make_slot_def)

lemma gap_slots_end_le:
  assumes "0 \<le> timedelta_minutes d" "\<forall>p\<in>set bp. fst p \<le> snd p" "x \<in> set (gap_slots d c bp)"
  shows "slot_end x \<le> final_cursor c bp"
  using assms
proof (induction bp arbitrary: c)
  case Nil
  then show ?case by simp
next
  case (Cons p rest)
  obtain s e where p: "p = (s, e)" by (cases p)
  from Cons.prems(3) p consider
      "c + timedelta_minutes d \<le> s" "x = make_slot c d"
    | "x \<in> set (gap_slots d (max c e) rest)"
    by (auto split: if_splits)
  then show ?case
  proof cases
    case 1
    have "s \<le> e" using Cons.prems(2) p by simp
    then have "slot_end x \<le> max c e" using 1 by (simp add: make_slot_def)
    also have "\<dots> \<le> final_cursor (max c e) rest" by (rule final_cursor_ge)
    finally show ?thesis using p by simp
  next
    case 2
    then show ?thesis using Cons.IH [of "max c e"] Cons.prems(1,2) p by simp
  qed
qed

lemma separated_gap_slots:
  assumes "0 \<le> timedelta_minutes d" "\<forall>p\<in>set bp. fst p \<le> snd p"
  shows "sorted_wrt (\<lambda>a b. slot_end a \<le> slot_start b) (gap_slots d c bp)"
  using assms
proof (induction bp arbitrary: c)
  case Nil
  then show ?case by simp
next
  case (Cons p rest)
  obtain s e where p: "p = (s, e)" by (cases p)
  have se: "s \<le> e" using Cons.prems(2) p by simp
  have later: "c + timedelta_minutes d \<le> slot_start x"
    if "c + timedelta_minutes d \<le> s" "x \<in> set (gap_slots d (max c e) rest)" for x
    using gap_slots_start_ge [OF that(2)] that(1) se by simp
  have "sorted_wrt (\<lambda>a b. slot_end a \<le> slot_start b) (gap_slots d (max c e) rest)"
    using Cons.IH Cons.prems by simp
  then show ?case using p later by (simp add: make_slot_def)
qed

lemma separated_candidate_slots:
  assumes "0 \<le> timedelta_minutes d" "\<forall>p\<in>set bp. fst p \<le> snd p"
  shows "sorted_wrt (\<lambda>a b. slot_end a \<le> slot_start b) (candidate_slots ws we d bp)"
  using separated_gap_slots [OF assms, of ws] gap_slots_end_le [OF assms, of _ ws]
  by (auto simp: candidate_slots_eq sorted_wrt_append make_slot_def)

lemma candidate_slots_shape:
  "x \<in> set (candidate_slots ws we d bp) \<Longrightarrow>
     slot_end x = slot_start x + timedelta_minutes d \<and> slot_duration_minutes x = d"
  using gap_slots_shape [of x d ws bp]
  by (auto simp: candidate_slots_eq make_slot_def split: if_splits)

lemma merge_from_sweep:
  "0 < timedelta_minutes d \<Longrightarrow>
     gap_slots d c (merge_from t p rest) = gap_slots d c (p # rest) \<and>
     final_cursor c (merge_from t p rest) = final_cursor c (p # rest)"
proof (induction t p rest arbitrary: c rule: merge_from.induct)
  case (1 t s e)
  then show ?case by simp
next
  case (2 t s e s' e' rest)
  show ?case
  proof (cases "s' < e \<or> (t \<and> s' = e)")
    case True
    have unfold: "merge_from t (s, e) ((s', e') # rest) = merge_from t (s, max e e') rest"
      by (simp only: merge_from.simps True if_True)
    have no_slot: "\<not> max c e + timedelta_minutes d \<le> s'"
      using True "2.prems" by auto
    have assoc: "max (max c e) e' = max c (max e e')" by simp
    have ih: "gap_slots d c (merge_from t (s, max e e') rest) = gap_slots d c ((s, max e e') # rest)
        \<and> final_cursor c (merge_from t (s, max e e') rest) = final_cursor c ((s, max e e') # rest)"
      by (rule "2.IH"(1) [OF True "2.prems"])
    show ?thesis unfolding unfold using ih no_slot assoc by simp
  next
    case False
    have unfold: "merge_from t (s, e) ((s', e') # rest) = (s, e) # merge_from t (s', e') rest"
      by (simp only: merge_from.simps False if_False)
    have ih: "gap_slots d (max c e) (merge_from t (s', e') rest) = gap_slots d (max c e) ((s', e') # rest)
        \<and> final_cursor (max c e) (merge_from t (s', e') rest) = final_cursor (max c e) ((s', e') # rest)"
      by (rule "2.IH"(2) [OF False "2.prems"])
    have g: "gap_slots d c ((s, e) # merge_from t (s', e') rest) =
        (if c + timedelta_minutes d \<le> s then [make_slot c d] else []) @
        gap_slots d (max c e) (merge_from t (s', e') rest)"
      by simp
    have f: "final_cursor c ((s, e) # merge_from t (s', e') rest) =
        final_cursor (max c e) (merge_from t (s', e') rest)"
      by simp
    show ?thesis unfolding unfold g f using ih by simp
  qed
qed

lemma merge_busy_candidate_slots:
  "0 < timedelta_minutes d \<Longrightarrow>
     candidate_slots ws we d (merge_busy t bp) = candidate_slots ws we d bp"
  by (cases bp) (simp_all add: merge_busy_def candidate_slots_eq merge_from_sweep del: gap_slots.simps final_cursor.simps)

section \<open>Facts about the conversion and the window\<close>

lemma busy_periods_loop_eq:
  "busy_periods_loop f bt acc = acc @ List.map_filter (busy_period f) bt"
  by (induction bt arbitrary: acc) (auto simp: List.map_filter_simps split: option.splits)

lemma set_map_filter: "set (List.map_filter g xs) = {y. \<exists>x\<in>set xs. g x = Some y}"
  by (induction xs) (auto simp: List.map_filter_simps split: option.splits)

lemma set_normalize_busy:
  "set (normalize_busy f bt) = {p. \<exists>b\<in>set bt. busy_period f b = Some p}"
  by (simp add: normalize_busy_def busy_periods_loop_eq set_map_filter)

lemma busy_period_Some_iff:
  "busy_period f b = Some (st, en) \<longleftrightarrow>
     (\<exists>s e. b_start b = Some s \<and> CHR ''T'' \<in> set s \<and> f (replace_Z s) = Some st \<and>
        b_end b = Some e \<and> f (replace_Z e) = Some en)"
  by (auto simp: busy_period_def split: option.splits)

lemma busy_period_None_iff: "busy_period f b = None \<longleftrightarrow> malformed f b"
  by (auto simp: busy_period_def malformed_def all_day_def unparsable_time_def split: option.splits)

lemma map_filter_filter_Some:
  "List.map_filter g (filter (\<lambda>x. g x \<noteq> None) xs) = List.map_filter g xs"
  by (induction xs) (auto simp: List.map_filter_simps split: option.splits)

lemma normalize_busy_filter:
  "normalize_busy f (filter (\<lambda>b. \<not> malformed f b) bt) = normalize_busy f bt"
  using map_filter_filter_Some [of "busy_period f" bt]
  by (simp add: normalize_busy_def busy_periods_loop_eq busy_period_None_iff)

lemma length_normalize_busy: "length (normalize_busy f bt) \<le> length bt"
proof -
  have "length (List.map_filter (busy_period f) bt) \<le> length bt"
    by (simp add: List.map_filter_def)
  then show ?thesis by (simp add: normalize_busy_def busy_periods_loop_eq)
qed

lemma sorted_normalize_busy: "sorted (map fst (normalize_busy f bt))"
  by (simp add: normalize_busy_def)

lemma slots_from_busy_times_Inr_iff:
  "slots_from_busy_times sp f dt d psh peh bt = Inr slots \<longleftrightarrow>
     (\<exists>d0. sp dt = Some d0 \<and> 0 \<le> psh \<and> psh \<le> 23 \<and> 0 \<le> peh \<and> peh \<le> 23 \<and>
        slots = first_n 5 (candidate_slots (d0 + 3600 * psh) (d0 + 3600 * peh) d
                            (normalize_busy f bt)))"
  by (auto simp: slots_from_busy_times_def replace_hour_def split: option.splits)

lemma gap_slots_avoid_busy:
  assumes "sorted (map fst bp)" "x \<in> set (gap_slots d c bp)" "p \<in> set bp"
  shows "slot_end x \<le> fst p \<or> snd p \<le> slot_start x"
  using assms
proof (induction bp arbitrary: c)
  case Nil
  then show ?case by simp
next
  case (Cons q rest)
  obtain s e where q: "q = (s, e)" by (cases q)
  have sorted_rest: "sorted (map fst rest)" and first: "\<forall>r\<in>set rest. s \<le> fst r"
    using Cons.prems(1) q by auto
  from Cons.prems(2) q consider
      "c + timedelta_minutes d \<le> s" "x = make_slot c d"
    | "x \<in> set (gap_slots d (max c e) rest)"
    by (auto split: if_splits)
  then show ?case
  proof cases
    case 1
    have "s \<le> fst p" using Cons.prems(3) first q by auto
    then show ?thesis using 1 by (simp add: make_slot_def)
  next
    case 2
    show ?thesis
    proof (cases "p = q")
      case True
      have "max c e \<le> slot_start x" using 2 by (rule gap_slots_start_ge)
      then show ?thesis using True q by simp
    next
      case False
      then have "p \<in> set rest" using Cons.prems(3) by simp
      then show ?thesis using Cons.IH [OF sorted_rest 2] by simp
    qed
  qed
qed

lemma candidate_slots_avoid_busy:
  assumes "sorted (map fst bp)" "x \<in> set (candidate_slots ws we d bp)" "p \<in> set bp"
  shows "\<not> overlaps_busy x p"
proof -
  from assms(2) consider "x \<in> set (gap_slots d ws bp)" | "x = make_slot (final_cursor ws bp) d"
    by (auto simp: candidate_slots_eq split: if_splits)
  then show ?thesis
  proof cases
    case 1
    then show ?thesis using gap_slots_avoid_busy [OF assms(1) 1 assms(3)]
      by (auto simp: overlaps_busy_def)
  next
    case 2
    have "snd p \<le> final_cursor ws bp"
      using final_cursor_ge_end [of "fst p" "snd p" bp ws] assms(3) by simp
    then show ?thesis using 2 by (simp add: overlaps_busy_def make_slot_def)
  qed
qed

lemma candidate_slots_start_ge:
  "x \<in> set (candidate_slots ws we d bp) \<Longrightarrow> ws \<le> slot_start x"
  using gap_slots_start_ge [of x d ws bp] final_cursor_ge [of ws bp]
  by (auto simp: candidate_slots_eq make_slot_def split: if_splits)

section \<open>Slot durations, order and overlap\<close>

lemma separated_slots_strict:
  assumes "0 < d" "sorted_wrt (\<lambda>a b. slot_end a \<le> slot_start b) xs"
    "\<forall>x\<in>set xs. slot_end x = slot_start x + timedelta_minutes d"
  shows "sorted_wrt (\<lambda>a b. \<not> slots_overlap a b \<and> slot_start a < slot_start b) xs"
proof (rule sorted_wrt_mono_rel [OF _ assms(2)])
  fix x y
  assume x: "x \<in> set xs" and "y \<in> set xs" and le: "slot_end x \<le> slot_start y"
  have "slot_start x < slot_end x"
    using assms(1,3) x by (simp add: timedelta_minutes_def)
  then show "\<not> slots_overlap x y \<and> slot_start x < slot_start y"
    using le by (simp add: slots_overlap_def)
qed

text \<open>
  C2, as amended. For every window, busy list and duration, each returned slot's end is
  exactly \<open>duration_minutes\<close> minutes, that is \<open>60 * duration_minutes\<close> seconds, after its
  start, and the slots are in chronological order of start. When moreover the duration is
  positive and no converted busy period ends before it starts, the slots are pairwise
  non-overlapping and their starts strictly ascend.
\<close>

theorem slots_disjoint_ascending_exact:
  assumes "slots_from_busy_times sp f dt d psh peh bt = Inr slots"
  shows "list_all (\<lambda>x. slot_end x - slot_start x = 60 * d \<and> slot_duration_minutes x = d) slots \<and>
         sorted_wrt (\<lambda>a b. slot_start a \<le> slot_start b) slots \<and>
         (0 < d \<and> list_all oriented (normalize_busy f bt) \<longrightarrow>
            sorted_wrt (\<lambda>a b. \<not> slots_overlap a b \<and> slot_start a < slot_start b) slots)"
proof -
  from assms obtain d0 where
    slots: "slots = first_n 5 (candidate_slots (d0 + 3600 * psh) (d0 + 3600 * peh) d
                                 (normalize_busy f bt))"
    by (auto simp: slots_from_busy_times_Inr_iff)
  let ?cands = "candidate_slots (d0 + 3600 * psh) (d0 + 3600 * peh) d (normalize_busy f bt)"
  have shape: "\<forall>x\<in>set ?cands. slot_end x = slot_start x + timedelta_minutes d \<and>
      slot_duration_minutes x = d"
    using candidate_slots_shape by blast
  have "\<forall>x\<in>set slots. slot_end x - slot_start x = 60 * d \<and> slot_duration_minutes x = d"
    using shape unfolding slots first_n_def
    by (auto dest!: in_set_takeD simp: timedelta_minutes_def)
  then have exact: "list_all (\<lambda>x. slot_end x - slot_start x = 60 * d \<and>
      slot_duration_minutes x = d) slots"
    by (simp add: list_all_iff)
  have "sorted_wrt (\<lambda>a b. slot_start a \<le> slot_start b) ?cands"
    by (rule sorted_candidate_slots)
  then have chrono: "sorted_wrt (\<lambda>a b. slot_start a \<le> slot_start b) slots"
    unfolding slots first_n_def by (rule sorted_wrt_take)
  have strict: "sorted_wrt (\<lambda>a b. \<not> slots_overlap a b \<and> slot_start a < slot_start b) slots"
    if pos: "0 < d" and oriented: "list_all oriented (normalize_busy f bt)"
  proof -
    have td: "0 \<le> timedelta_minutes d" using pos by (simp add: timedelta_minutes_def)
    have ori: "\<forall>p\<in>set (normalize_busy f bt). fst p \<le> snd p"
      using oriented by (simp add: list_all_iff oriented_def)
    have "sorted_wrt (\<lambda>a b. slot_end a \<le> slot_start b) ?cands"
      by (rule separated_candidate_slots [OF td ori])
    then have "sorted_wrt (\<lambda>a b. \<not> slots_overlap a b \<and> slot_start a < slot_start b) ?cands"
      using separated_slots_strict [OF pos] shape by blast
    then show ?thesis
      unfolding slots first_n_def by (rule sorted_wrt_take)
  qed
  show ?thesis using exact chrono strict by blast
qed

theorem slots_disjoint_ascending_exact_witness:
  "slots_from_busy_times sample_strptime sample_fromisoformat ''2024-01-15'' 60 9 17
      [timed_busy ''2024-01-15T10:00:00Z'' ''2024-01-15T11:00:00Z''] =
     Inr [\<lparr>slot_start = 32400, slot_end = 36000, slot_duration_minutes = 60\<rparr>,
          \<lparr>slot_start = 39600, slot_end = 43200, slot_duration_minutes = 60\<rparr>] \<and>
   list_all oriented (normalize_busy sample_fromisoformat
      [timed_busy ''2024-01-15T10:00:00Z'' ''2024-01-15T11:00:00Z'']) \<and>
   list_all (\<lambda>x. slot_end x - slot_start x = 60 * 60 \<and> slot_duration_minutes x = 60)
     [\<lparr>slot_start = 32400, slot_end = 36000, slot_duration_minutes = 60\<rparr>,
      \<lparr>slot_start = 39600, slot_end = 43200, slot_duration_minutes = 60\<rparr>] \<and>
   sorted_wrt (\<lambda>a b. slot_start a \<le> slot_start b)
     [\<lparr>slot_start = 32400, slot_end = 36000, slot_duration_minutes = 60\<rparr>,
      \<lparr>slot_start = 39600, slot_end = 43200, slot_duration_minutes = 60\<rparr>] \<and>
   sorted_wrt (\<lambda>a b. \<not> slots_overlap a b \<and> slot_start a < slot_start b)
     [\<lparr>slot_start = 32400, slot_end = 36000, slot_duration_minutes = 60\<rparr>,
      \<lparr>slot_start = 39600, slot_end = 43200, slot_duration_minutes = 60\<rparr>]"
proof -
  have run: "slots_from_busy_times sample_strptime sample_fromisoformat ''2024-01-15'' 60 9 17
      [timed_busy ''2024-01-15T10:00:00Z'' ''2024-01-15T11:00:00Z''] =
     Inr [\<lparr>slot_start = 32400, slot_end = 36000, slot_duration_minutes = 60\<rparr>,
          \<lparr>slot_start = 39600, slot_end = 43200, slot_duration_minutes = 60\<rparr>]"
    by (simp add: slots_from_busy_times_def sample_strptime_def replace_hour_def
        normalize_busy_def busy_period_def timed_busy_def replace_Z_def sample_fromisoformat_def
        first_n_def candidate_slots_def make_slot_def timedelta_minutes_def)
  have ori: "list_all oriented (normalize_busy sample_fromisoformat
      [timed_busy ''2024-01-15T10:00:00Z'' ''2024-01-15T11:00:00Z''])"
    by (simp add: normalize_busy_def busy_period_def timed_busy_def replace_Z_def
        sample_fromisoformat_def oriented_def)
  have pos: "(0::int) < 60" by simp
  show ?thesis
    using slots_disjoint_ascending_exact [OF run] pos ori run by simp
qed

text \<open>
  C2 as stated fails in its first part: a busy entry whose end (08:00) lies before its
  start (12:00) is kept by the conversion, the cursor does not move past the slot just
  emitted, and the same slot 09:00--10:00 is returned twice.
\<close>

theorem repeated_slot_counterexample:
  "slots_from_busy_times sample_strptime sample_fromisoformat ''2024-01-15'' 60 9 17
      [timed_busy ''2024-01-15T12:00:00Z'' ''2024-01-15T08:00:00Z''] =
     Inr [\<lparr>slot_start = 32400, slot_end = 36000, slot_duration_minutes = 60\<rparr>,
          \<lparr>slot_start = 32400, slot_end = 36000, slot_duration_minutes = 60\<rparr>] \<and>
   slots_overlap \<lparr>slot_start = 32400, slot_end = 36000, slot_duration_minutes = 60\<rparr>
                 \<lparr>slot_start = 32400, slot_end = 36000, slot_duration_minutes = 60\<rparr>"
  by (simp add: slots_from_busy_times_def sample_strptime_def replace_hour_def
      normalize_busy_def busy_period_def timed_busy_def replace_Z_def sample_fromisoformat_def
      first_n_def candidate_slots_def make_slot_def timedelta_minutes_def slots_overlap_def)

section \<open>The number of candidates\<close>

text \<open>
  C5. Before the final slice the list holds at most one slot per converted busy period plus
  the tail slot, so at most \<open>n + 1\<close> slots for \<open>n\<close> busy periods. With no busy period it is
  empty or the single slot that starts at the start of the window; it is never a tiling of
  the window.
\<close>

theorem candidate_slots_at_most_busy_plus_one:
  "length (candidate_slots ws we d (normalize_busy f bt)) \<le> length (normalize_busy f bt) + 1 \<and>
   candidate_slots ws we d [] =
     (if ws + 60 * d \<le> we
      then [\<lparr>slot_start = ws, slot_end = ws + 60 * d, slot_duration_minutes = d\<rparr>]
      else []) \<and>
   length (candidate_slots ws we d []) \<le> 1"
proof -
  have "length (candidate_slots ws we d (normalize_busy f bt)) \<le> length (normalize_busy f bt) + 1"
    by (rule length_candidate_slots)
  moreover have "candidate_slots ws we d [] =
     (if ws + 60 * d \<le> we
      then [\<lparr>slot_start = ws, slot_end = ws + 60 * d, slot_duration_minutes = d\<rparr>]
      else [])"
    by (simp add: candidate_slots_def make_slot_def timedelta_minutes_def)
  ultimately show ?thesis by simp
qed

section \<open>Slots and the working window\<close>

text \<open>
  C1 at a day with a meeting from 10:00 to 16:30 and another from 20:00 to 21:00, a window
  from 09:00 to 17:00 and a duration of 60 minutes. The gap check inside the loop compares
  the candidate only with the start of the next busy period (20:00), not with
  \<open>end_of_day\<close> as the check after the loop does, so the second slot returned runs from
  16:30 to 17:30 and leaves the window.
\<close>

theorem suggest_time_slots_leaves_window:
  "suggest_time_slots
     (listing [timed_event ''2024-01-15T10:00:00Z'' ''2024-01-15T16:30:00Z'',
               timed_event ''2024-01-15T20:00:00Z'' ''2024-01-15T21:00:00Z''])
     sample_strptime sample_fromisoformat ''2024-01-15'' 60 9 17 =
     Inr [\<lparr>slot_start = 32400, slot_end = 36000, slot_duration_minutes = 60\<rparr>,
          \<lparr>slot_start = 59400, slot_end = 63000, slot_duration_minutes = 60\<rparr>] \<and>
   \<not> within_window 32400 61200
       \<lparr>slot_start = 59400, slot_end = 63000, slot_duration_minutes = 60\<rparr>"
  by (simp add: suggest_time_slots_def suggest_time_slots_body_def get_busy_times_def listing_def
      items_def timed_event_def time_of_def slots_from_busy_times_def sample_strptime_def
      replace_hour_def normalize_busy_def busy_period_def replace_Z_def sample_fromisoformat_def
      first_n_def candidate_slots_def make_slot_def timedelta_minutes_def within_window_def)

text \<open>
  C7 at a day with one busy period from 08:00 to 17:00, which spans the window from 09:00 to
  17:00, and a meeting from 20:00 to 21:00. After the spanning period the cursor stands at
  17:00, and the loop's gap check before the evening meeting emits the slot 17:00--18:00.
\<close>

theorem spanning_busy_still_yields_slot:
  "suggest_time_slots
     (listing [timed_event ''2024-01-15T08:00:00Z'' ''2024-01-15T17:00:00Z'',
               timed_event ''2024-01-15T20:00:00Z'' ''2024-01-15T21:00:00Z''])
     sample_strptime sample_fromisoformat ''2024-01-15'' 60 9 17 =
     Inr [\<lparr>slot_start = 61200, slot_end = 64800, slot_duration_minutes = 60\<rparr>]"
  by (simp add: suggest_time_slots_def suggest_time_slots_body_def get_busy_times_def listing_def
      items_def timed_event_def time_of_def slots_from_busy_times_def sample_strptime_def
      replace_hour_def normalize_busy_def busy_period_def replace_Z_def sample_fromisoformat_def
      first_n_def candidate_slots_def make_slot_def timedelta_minutes_def)

text \<open>What does hold: when no busy period starts after the end of the window, a spanning
  busy period leaves no slot.\<close>

lemma no_gap_slots_from_late_cursor:
  assumes "0 < timedelta_minutes d" "we \<le> c" "\<forall>p\<in>set bp. fst p \<le> we"
  shows "gap_slots d c bp = []"
  using assms
proof (induction bp arbitrary: c)
  case Nil
  then show ?case by simp
next
  case (Cons p rest)
  obtain s e where p: "p = (s, e)" by (cases p)
  have "s \<le> we" using Cons.prems(3) p by simp
  then have no: "\<not> c + timedelta_minutes d \<le> s" using Cons.prems(1,2) by simp
  have "gap_slots d (max c e) rest = []"
    using Cons.IH [of "max c e"] Cons.prems by simp
  then show ?case using p no by simp
qed

lemma no_gap_slots_before_spanning:
  assumes "0 < timedelta_minutes d" "ws \<le> c" "sorted (map fst bp)" "\<forall>p\<in>set bp. fst p \<le> we"
    "(s, e) \<in> set bp" "s \<le> ws" "we \<le> e"
  shows "gap_slots d c bp = []"
  using assms
proof (induction bp arbitrary: c)
  case Nil
  then show ?case by simp
next
  case (Cons p rest)
  obtain s' e' where p: "p = (s', e')" by (cases p)
  show ?case
  proof (cases "p = (s, e)")
    case True
    then have no: "\<not> c + timedelta_minutes d \<le> s'"
      using p Cons.prems(1,2,6) by simp
    have "we \<le> max c e'" using True p Cons.prems(7) by simp
    then have "gap_slots d (max c e') rest = []"
      using no_gap_slots_from_late_cursor [OF Cons.prems(1)] Cons.prems(4) by simp
    then show ?thesis using p no by simp
  next
    case False
    then have mem: "(s, e) \<in> set rest" using Cons.prems(5) by simp
    have "s' \<le> s" using Cons.prems(3) mem p by auto
    then have no: "\<not> c + timedelta_minutes d \<le> s'"
      using Cons.prems(1,2,6) by simp
    have "gap_slots d (max c e') rest = []"
      using Cons.IH [of "max c e'"] Cons.prems mem p by simp
    then show ?thesis using p no by simp
  qed
qed

lemma spanning_busy_no_slots:
  assumes "0 < d" "sorted (map fst bp)" "\<forall>p\<in>set bp. fst p \<le> we"
    "(s, e) \<in> set bp" "s \<le> ws" "we \<le> e"
  shows "candidate_slots ws we d bp = []"
proof -
  have td: "0 < timedelta_minutes d" using assms(1) by (simp add: timedelta_minutes_def)
  have "gap_slots d ws bp = []"
    by (rule no_gap_slots_before_spanning [OF td order_refl assms(2-6)])
  moreover have "we \<le> final_cursor ws bp"
    using final_cursor_ge_end [OF assms(4), of ws] assms(6) by simp
  ultimately show ?thesis using td by (simp add: candidate_slots_eq)
qed

section \<open>What the conversion keeps\<close>

lemma length_map_filter: "length (List.map_filter g xs) = length (filter (\<lambda>x. g x \<noteq> None) xs)"
  by (simp add: List.map_filter_def)

text \<open>
  C3, as amended. The converted busy periods are exactly the parsed pairs of the entries
  whose start has a time part and whose start and end both parse; as many entries are kept
  as are not malformed, and the others are dropped without failing. The order of start and
  end is not looked at.
\<close>

theorem normalize_busy_keeps_parsed_entries:
  "((st, en) \<in> set (normalize_busy f bt) \<longleftrightarrow>
      (\<exists>b\<in>set bt. \<exists>s e. b_start b = Some s \<and> CHR ''T'' \<in> set s \<and>
         f (replace_Z s) = Some st \<and> b_end b = Some e \<and> f (replace_Z e) = Some en)) \<and>
   length (normalize_busy f bt) = length (filter (\<lambda>b. \<not> malformed f b) bt)"
proof -
  have "(st, en) \<in> set (normalize_busy f bt) \<longleftrightarrow> (\<exists>b\<in>set bt. busy_period f b = Some (st, en))"
    by (simp add: set_normalize_busy)
  then have first: "(st, en) \<in> set (normalize_busy f bt) \<longleftrightarrow>
      (\<exists>b\<in>set bt. \<exists>s e. b_start b = Some s \<and> CHR ''T'' \<in> set s \<and>
         f (replace_Z s) = Some st \<and> b_end b = Some e \<and> f (replace_Z e) = Some en)"
    by (simp add: busy_period_Some_iff)
  have "length (normalize_busy f bt) = length (filter (\<lambda>b. busy_period f b \<noteq> None) bt)"
    by (simp add: normalize_busy_def busy_periods_loop_eq length_map_filter)
  then have "length (normalize_busy f bt) = length (filter (\<lambda>b. \<not> malformed f b) bt)"
    by (simp add: busy_period_None_iff)
  then show ?thesis using first by blast
qed

text \<open>
  C3 as stated fails: an event of zero length, from 12:00 to 12:00, is kept, and its start
  is not before its end.
\<close>

theorem zero_length_busy_kept_counterexample:
  "normalize_busy sample_fromisoformat
      [timed_busy ''2024-01-15T12:00:00Z'' ''2024-01-15T12:00:00Z''] = [(43200, 43200)] \<and>
   \<not> list_all proper_period (normalize_busy sample_fromisoformat
      [timed_busy ''2024-01-15T12:00:00Z'' ''2024-01-15T12:00:00Z''])"
  by (simp add: normalize_busy_def busy_period_def timed_busy_def replace_Z_def
      sample_fromisoformat_def proper_period_def)

section \<open>The sweep against an explicit merge\<close>

lemma merge_from_fst: "fst (hd (merge_from t p rest)) = fst p"
  by (induction t p rest rule: merge_from.induct) auto

lemma merge_from_separated:
  assumes "sorted (map fst (p # rest))" "list_all oriented (p # rest)"
  shows "sorted_wrt (\<lambda>a b. snd a \<le> fst b) (merge_from t p rest) \<and>
         (\<forall>q\<in>set (merge_from t p rest). fst p \<le> fst q \<and> oriented q)"
  using assms
proof (induction t p rest rule: merge_from.induct)
  case (1 t s e)
  then show ?case by simp
next
  case (2 t s e s' e' rest)
  have sorted_tail: "sorted (map fst ((s', e') # rest))" and ss': "s \<le> s'"
    and after: "\<forall>q\<in>set rest. s \<le> fst q"
    using "2.prems"(1) by auto
  have ori_rest: "list_all oriented rest"
    using "2.prems"(2) by simp
  have ori: "s \<le> e" "s' \<le> e'"
    using "2.prems"(2) by (simp_all add: oriented_def)
  show ?case
  proof (cases "s' < e \<or> (t \<and> s' = e)")
    case True
    have unfold: "merge_from t (s, e) ((s', e') # rest) = merge_from t (s, max e e') rest"
      by (simp only: merge_from.simps True if_True)
    have a: "sorted (map fst ((s, max e e') # rest))"
      using sorted_tail after by simp
    have "oriented (s, max e e')"
      using ori by (simp add: oriented_def)
    then have b: "list_all oriented ((s, max e e') # rest)"
      using ori_rest by simp
    have "sorted_wrt (\<lambda>a b. snd a \<le> fst b) (merge_from t (s, max e e') rest) \<and>
         (\<forall>q\<in>set (merge_from t (s, max e e') rest). fst (s, max e e') \<le> fst q \<and> oriented q)"
      by (rule "2.IH"(1) [OF True a b])
    then show ?thesis
      unfolding unfold by simp
  next
    case False
    have unfold: "merge_from t (s, e) ((s', e') # rest) = (s, e) # merge_from t (s', e') rest"
      by (simp only: merge_from.simps False if_False)
    have "oriented (s', e')" using ori by (simp add: oriented_def)
    then have c: "list_all oriented ((s', e') # rest)" using ori_rest by simp
    have ih: "sorted_wrt (\<lambda>a b. snd a \<le> fst b) (merge_from t (s', e') rest) \<and>
         (\<forall>q\<in>set (merge_from t (s', e') rest). fst (s', e') \<le> fst q \<and> oriented q)"
      by (rule "2.IH"(2) [OF False sorted_tail c])
    have gap: "e \<le> s'" using False by auto
    have d: "oriented (s, e)" using ori by (simp add: oriented_def)
    have f: "\<forall>q\<in>set (merge_from t (s', e') rest). e \<le> fst q \<and> s \<le> fst q"
      using ih gap ss' by fastforce
    show ?thesis unfolding unfold using ih d f by simp
  qed
qed

text \<open>
  C4. For a positive duration the sweep over the sorted busy periods returns exactly the
  slots of the variant that first merges overlapping busy periods and then sweeps; this
  holds whether or not the merge also joins periods that merely touch.
\<close>

theorem sweep_equals_merge_then_sweep:
  "0 < d \<Longrightarrow>
     candidate_slots_merged touching ws we d (normalize_busy f bt) =
     candidate_slots ws we d (normalize_busy f bt)"
proof -
  assume "0 < d"
  then have "0 < timedelta_minutes d" by (simp add: timedelta_minutes_def)
  then show ?thesis
    unfolding candidate_slots_merged_def by (rule merge_busy_candidate_slots)
qed

theorem sweep_equals_merge_then_sweep_witness:
  "merge_busy False (normalize_busy sample_fromisoformat
      [timed_busy ''2024-01-15T09:15:00Z'' ''2024-01-15T10:00:00Z'',
       timed_busy ''2024-01-15T09:00:00Z'' ''2024-01-15T09:30:00Z'']) = [(32400, 36000)] \<and>
   candidate_slots_merged False 32400 61200 60 (normalize_busy sample_fromisoformat
      [timed_busy ''2024-01-15T09:15:00Z'' ''2024-01-15T10:00:00Z'',
       timed_busy ''2024-01-15T09:00:00Z'' ''2024-01-15T09:30:00Z'']) =
     [\<lparr>slot_start = 36000, slot_end = 39600, slot_duration_minutes = 60\<rparr>] \<and>
   candidate_slots 32400 61200 60 (normalize_busy sample_fromisoformat
      [timed_busy ''2024-01-15T09:15:00Z'' ''2024-01-15T10:00:00Z'',
       timed_busy ''2024-01-15T09:00:00Z'' ''2024-01-15T09:30:00Z'']) =
     [\<lparr>slot_start = 36000, slot_end = 39600, slot_duration_minutes = 60\<rparr>]"
proof -
  have pos: "(0::int) < 60" by simp
  have norm: "normalize_busy sample_fromisoformat
      [timed_busy ''2024-01-15T09:15:00Z'' ''2024-01-15T10:00:00Z'',
       timed_busy ''2024-01-15T09:00:00Z'' ''2024-01-15T09:30:00Z''] =
      [(32400, 34200), (33300, 36000)]"
    by (simp add: normalize_busy_def busy_period_def timed_busy_def replace_Z_def
        sample_fromisoformat_def)
  have direct: "candidate_slots 32400 61200 60 [(32400, 34200), (33300, 36000)] =
     [\<lparr>slot_start = 36000, slot_end = 39600, slot_duration_minutes = 60\<rparr>]"
    by (simp add: candidate_slots_def make_slot_def timedelta_minutes_def)
  have merged: "merge_busy False [(32400, 34200), (33300, 36000)] = [(32400, 36000)]"
    by (simp add: merge_busy_def)
  show ?thesis
    using sweep_equals_merge_then_sweep [OF pos, of False 32400 61200 sample_fromisoformat
        "[timed_busy ''2024-01-15T09:15:00Z'' ''2024-01-15T10:00:00Z'',
          timed_busy ''2024-01-15T09:00:00Z'' ''2024-01-15T09:30:00Z'']"]
    unfolding norm using direct merged by simp
qed

section \<open>The final slice\<close>

lemma sorted_wrt_take_drop:
  "sorted_wrt R xs \<Longrightarrow> \<forall>x\<in>set (take k xs). \<forall>y\<in>set (drop k xs). R x y"
proof -
  assume "sorted_wrt R xs"
  then have "sorted_wrt R (take k xs @ drop k xs)" by simp
  then show ?thesis unfolding sorted_wrt_append by blast
qed

text \<open>
  C6, as amended. The method returns the first five candidates, so at most five slots; the
  cap is the constant 5 and no argument changes it. The candidates are in order of start,
  so the slice keeps the chronologically earliest ones in order: no candidate that is cut
  off starts before one that is returned.
\<close>

theorem slice_keeps_earliest:
  assumes "sp dt = Some d0"
    and "cands = candidate_slots (d0 + 3600 * psh) (d0 + 3600 * peh) d (normalize_busy f bt)"
    and "slots_from_busy_times sp f dt d psh peh bt = Inr slots"
  shows "slots = first_n 5 cands \<and> length slots = min 5 (length cands) \<and>
         sorted_wrt (\<lambda>a b. slot_start a \<le> slot_start b) cands \<and>
         sorted_wrt (\<lambda>a b. slot_start a \<le> slot_start b) slots \<and>
         list_all (\<lambda>x. list_all (\<lambda>y. slot_start x \<le> slot_start y) (drop 5 cands)) slots"
proof -
  have slots: "slots = first_n 5 cands"
    using assms by (auto simp: slots_from_busy_times_Inr_iff)
  have sorted: "sorted_wrt (\<lambda>a b. slot_start a \<le> slot_start b) cands"
    unfolding assms(2) by (rule sorted_candidate_slots)
  then have kept: "sorted_wrt (\<lambda>a b. slot_start a \<le> slot_start b) slots"
    unfolding slots first_n_def by (rule sorted_wrt_take)
  have cut: "list_all (\<lambda>x. list_all (\<lambda>y. slot_start x \<le> slot_start y) (drop 5 cands)) slots"
    using sorted_wrt_take_drop [OF sorted, of 5] by (simp add: list_all_iff slots first_n_def)
  have "length slots = min 5 (length cands)"
    unfolding slots by (simp add: first_n_def min.commute)
  then show ?thesis using slots sorted kept cut by blast
qed

theorem slice_keeps_earliest_witness:
  "slots_from_busy_times sample_strptime sample_fromisoformat ''2024-01-15'' 60 8 21
      alternating_day =
     Inr [\<lparr>slot_start = 28800, slot_end = 32400, slot_duration_minutes = 60\<rparr>,
          \<lparr>slot_start = 36000, slot_end = 39600, slot_duration_minutes = 60\<rparr>,
          \<lparr>slot_start = 43200, slot_end = 46800, slot_duration_minutes = 60\<rparr>,
          \<lparr>slot_start = 50400, slot_end = 54000, slot_duration_minutes = 60\<rparr>,
          \<lparr>slot_start = 57600, slot_end = 61200, slot_duration_minutes = 60\<rparr>] \<and>
   length (candidate_slots 28800 75600 60 (normalize_busy sample_fromisoformat alternating_day))
     = 7 \<and>
   drop 5 (candidate_slots 28800 75600 60
             (normalize_busy sample_fromisoformat alternating_day)) =
     [\<lparr>slot_start = 64800, slot_end = 68400, slot_duration_minutes = 60\<rparr>,
      \<lparr>slot_start = 72000, slot_end = 75600, slot_duration_minutes = 60\<rparr>]"
proof -
  have norm: "normalize_busy sample_fromisoformat alternating_day =
      [(32400, 36000), (39600, 43200), (46800, 50400), (54000, 57600), (61200, 64800),
       (68400, 72000)]"
    by (simp add: normalize_busy_def alternating_day_def busy_period_def timed_busy_def
        replace_Z_def sample_fromisoformat_def)
  have cands: "candidate_slots 28800 75600 60
      [(32400, 36000), (39600, 43200), (46800, 50400), (54000, 57600), (61200, 64800),
       (68400, 72000)] =
      [\<lparr>slot_start = 28800, slot_end = 32400, slot_duration_minutes = 60\<rparr>,
       \<lparr>slot_start = 36000, slot_end = 39600, slot_duration_minutes = 60\<rparr>,
       \<lparr>slot_start = 43200, slot_end = 46800, slot_duration_minutes = 60\<rparr>,
       \<lparr>slot_start = 50400, slot_end = 54000, slot_duration_minutes = 60\<rparr>,
       \<lparr>slot_start = 57600, slot_end = 61200, slot_duration_minutes = 60\<rparr>,
       \<lparr>slot_start = 64800, slot_end = 68400, slot_duration_minutes = 60\<rparr>,
       \<lparr>slot_start = 72000, slot_end = 75600, slot_duration_minutes = 60\<rparr>]"
    by (simp add: candidate_slots_def make_slot_def timedelta_minutes_def)
  have day: "sample_strptime ''2024-01-15'' = Some 0"
    by (simp add: sample_strptime_def)
  have run: "slots_from_busy_times sample_strptime sample_fromisoformat ''2024-01-15'' 60 8 21
      alternating_day =
     Inr [\<lparr>slot_start = 28800, slot_end = 32400, slot_duration_minutes = 60\<rparr>,
          \<lparr>slot_start = 36000, slot_end = 39600, slot_duration_minutes = 60\<rparr>,
          \<lparr>slot_start = 43200, slot_end = 46800, slot_duration_minutes = 60\<rparr>,
          \<lparr>slot_start = 50400, slot_end = 54000, slot_duration_minutes = 60\<rparr>,
          \<lparr>slot_start = 57600, slot_end = 61200, slot_duration_minutes = 60\<rparr>]"
    by (simp add: slots_from_busy_times_def day replace_hour_def norm cands first_n_def)
  show ?thesis
    using slice_keeps_earliest [OF day refl run] run
    by (simp add: norm cands first_n_def)
qed

text \<open>
  C6 as stated fails in its last part: the method has no cap to set to 1. On a day with
  seven possible slots of which the caller wants only the earliest, it returns five slots,
  not the single slot 08:00--09:00.
\<close>

theorem cap_is_five_counterexample:
  "slots_from_busy_times sample_strptime sample_fromisoformat ''2024-01-15'' 60 8 21
      alternating_day =
     Inr [\<lparr>slot_start = 28800, slot_end = 32400, slot_duration_minutes = 60\<rparr>,
          \<lparr>slot_start = 36000, slot_end = 39600, slot_duration_minutes = 60\<rparr>,
          \<lparr>slot_start = 43200, slot_end = 46800, slot_duration_minutes = 60\<rparr>,
          \<lparr>slot_start = 50400, slot_end = 54000, slot_duration_minutes = 60\<rparr>,
          \<lparr>slot_start = 57600, slot_end = 61200, slot_duration_minutes = 60\<rparr>] \<and>
   slots_from_busy_times sample_strptime sample_fromisoformat ''2024-01-15'' 60 8 21
      alternating_day \<noteq>
     Inr [\<lparr>slot_start = 28800, slot_end = 32400, slot_duration_minutes = 60\<rparr>]"
  by (simp add: slots_from_busy_times_def sample_strptime_def replace_hour_def
      normalize_busy_def alternating_day_def busy_period_def timed_busy_def replace_Z_def
      sample_fromisoformat_def first_n_def candidate_slots_def make_slot_def
      timedelta_minutes_def)

section \<open>Malformed busy entries\<close>

text \<open>
  C8. An entry is skipped by the conversion exactly when it is all-day or has a missing or
  unparsable start or end. The converted busy periods, and with them the whole result, are
  those of the list without the skipped entries. Whether the method fails does not depend
  on the busy entries at all: it returns slots exactly when the date parses and both hours
  are within 0..23.
\<close>

theorem malformed_entries_skipped:
  "(busy_period f b = None \<longleftrightarrow> malformed f b) \<and>
   normalize_busy f bt = normalize_busy f (filter (\<lambda>b. \<not> malformed f b) bt) \<and>
   slots_from_busy_times sp f dt d psh peh bt =
     slots_from_busy_times sp f dt d psh peh (filter (\<lambda>b. \<not> malformed f b) bt) \<and>
   ((\<exists>slots. slots_from_busy_times sp f dt d psh peh bt = Inr slots) \<longleftrightarrow>
      (sp dt \<noteq> None \<and> 0 \<le> psh \<and> psh \<le> 23 \<and> 0 \<le> peh \<and> peh \<le> 23))"
proof -
  have skip: "busy_period f b = None \<longleftrightarrow> malformed f b"
    by (rule busy_period_None_iff)
  have norm: "normalize_busy f bt = normalize_busy f (filter (\<lambda>b. \<not> malformed f b) bt)"
    by (simp add: normalize_busy_filter)
  have same: "slots_from_busy_times sp f dt d psh peh bt =
     slots_from_busy_times sp f dt d psh peh (filter (\<lambda>b. \<not> malformed f b) bt)"
    unfolding slots_from_busy_times_def normalize_busy_filter by (rule refl)
  have total: "(\<exists>slots. slots_from_busy_times sp f dt d psh peh bt = Inr slots) \<longleftrightarrow>
      (sp dt \<noteq> None \<and> 0 \<le> psh \<and> psh \<le> 23 \<and> 0 \<le> peh \<and> peh \<le> 23)"
    by (auto simp: slots_from_busy_times_Inr_iff)
  show ?thesis using skip norm same total by blast
qed

theorem malformed_entries_skipped_witness:
  "filter (\<lambda>b. \<not> malformed sample_fromisoformat b) mixed_day =
     [timed_busy ''2024-01-15T10:00:00Z'' ''2024-01-15T11:00:00Z''] \<and>
   slots_from_busy_times sample_strptime sample_fromisoformat ''2024-01-15'' 60 9 17 mixed_day =
     Inr [\<lparr>slot_start = 32400, slot_end = 36000, slot_duration_minutes = 60\<rparr>,
          \<lparr>slot_start = 39600, slot_end = 43200, slot_duration_minutes = 60\<rparr>]"
proof -
  have kept: "filter (\<lambda>b. \<not> malformed sample_fromisoformat b) mixed_day =
     [timed_busy ''2024-01-15T10:00:00Z'' ''2024-01-15T11:00:00Z'']"
    by (simp add: mixed_day_def malformed_def all_day_def unparsable_time_def timed_busy_def
        replace_Z_def sample_fromisoformat_def)
  have run: "slots_from_busy_times sample_strptime sample_fromisoformat ''2024-01-15'' 60 9 17
      [timed_busy ''2024-01-15T10:00:00Z'' ''2024-01-15T11:00:00Z''] =
     Inr [\<lparr>slot_start = 32400, slot_end = 36000, slot_duration_minutes = 60\<rparr>,
          \<lparr>slot_start = 39600, slot_end = 43200, slot_duration_minutes = 60\<rparr>]"
    by (simp add: slots_from_busy_times_def sample_strptime_def replace_hour_def
        normalize_busy_def busy_period_def timed_busy_def replace_Z_def sample_fromisoformat_def
        first_n_def candidate_slots_def make_slot_def timedelta_minutes_def)
  show ?thesis
    using malformed_entries_skipped [of sample_fromisoformat _ mixed_day sample_strptime
        "''2024-01-15''" 60 9 17]
    unfolding kept using run kept by simp
qed

section \<open>Availability of a range\<close>

text \<open>
  C10. \<open>check_availability\<close> returns \<open>True\<close> exactly when the backend's listing for the
  range (both bounds with the suffix \<open>Z\<close>) is empty, and \<open>False\<close> exactly when the listing
  holds any event at all, whatever the event is; it raises exactly when the backend does.
\<close>

theorem check_availability_iff_empty_listing:
  "(check_availability service st en = Inr True \<longleftrightarrow>
      (\<exists>res. service (with_Z st) (with_Z en) = Inr res \<and> items res = [])) \<and>
   (check_availability service st en = Inr False \<longleftrightarrow>
      (\<exists>res. service (with_Z st) (with_Z en) = Inr res \<and> items res \<noteq> [])) \<and>
   ((\<exists>e. check_availability service st en = Inl e) \<longleftrightarrow>
      (\<exists>e. service (with_Z st) (with_Z en) = Inl e))"
  by (cases "service (with_Z st) (with_Z en)") (auto simp: check_availability_def)

theorem check_availability_iff_empty_listing_witness:
  "check_availability (listing [all_day_event ''2024-01-15'' ''2024-01-16''])
      ''2024-01-15T10:00:00'' ''2024-01-15T11:00:00'' = Inr False \<and>
   check_availability (listing []) ''2024-01-15T10:00:00'' ''2024-01-15T11:00:00'' = Inr True"
  using check_availability_iff_empty_listing
      [of "listing [all_day_event ''2024-01-15'' ''2024-01-16'']"
          "''2024-01-15T10:00:00''" "''2024-01-15T11:00:00''"]
  by (simp add: check_availability_def listing_def items_def)

section \<open>The action boundary\<close>

lemma body_check_availability:
  "execute_function_body cs ''check_availability'' args = Inr r \<Longrightarrow> success_result r"
  by (auto simp: execute_function_body_def success_result_def has_payload_def is_str_def
      split: sum.splits)

lemma body_suggest_time_slots:
  "execute_function_body cs ''suggest_time_slots'' args = Inr r \<Longrightarrow> success_result r"
  by (auto simp: execute_function_body_def success_result_def has_payload_def is_str_def
      split: sum.splits)

lemma body_create_appointment:
  "execute_function_body cs ''create_appointment'' args = Inr r \<Longrightarrow> success_result r"
  by (auto simp: execute_function_body_def success_result_def has_payload_def is_str_def
      split: sum.splits)

lemma body_get_upcoming_events:
  "execute_function_body cs ''get_upcoming_events'' args = Inr r \<Longrightarrow> success_result r"
  by (auto simp: execute_function_body_def success_result_def has_payload_def is_str_def
      split: sum.splits)

lemma body_unknown:
  assumes "name \<noteq> ''check_availability''" "name \<noteq> ''suggest_time_slots''"
    "name \<noteq> ''create_appointment''" "name \<noteq> ''get_upcoming_events''"
  shows "execute_function_body cs name args =
     Inr [(''success'', JBool False), (''error'', JStr (''Unknown function: '' @ name))]"
  unfolding execute_function_body_def using assms by (simp only: if_False)

lemma execute_function_body_shape:
  assumes "execute_function_body cs name args = Inr r"
  shows "success_result r \<or> failure_result r"
proof -
  consider "name = ''check_availability''" | "name = ''suggest_time_slots''"
    | "name = ''create_appointment''" | "name = ''get_upcoming_events''"
    | "name \<noteq> ''check_availability''" "name \<noteq> ''suggest_time_slots''"
      "name \<noteq> ''create_appointment''" "name \<noteq> ''get_upcoming_events''"
    by blast
  then show ?thesis
  proof cases
    case 1
    then show ?thesis using assms body_check_availability by blast
  next
    case 2
    then show ?thesis using assms body_suggest_time_slots by blast
  next
    case 3
    then show ?thesis using assms body_create_appointment by blast
  next
    case 4
    then show ?thesis using assms body_get_upcoming_events by blast
  next
    case 5
    have "r = [(''success'', JBool False), (''error'', JStr (''Unknown function: '' @ name))]"
      using assms body_unknown [OF 5, of cs args] by simp
    then show ?thesis by (simp add: failure_result_def is_str_def)
  qed
qed

text \<open>
  C9. For every calendar service, action name and argument dictionary the method returns a
  dictionary and raises nothing: the result has \<^verbatim>\<open>success\<close> true with a payload entry and a
  message, or \<^verbatim>\<open>success\<close> false with an error string. This covers a failing calendar call,
  a missing required argument and an unknown action name.
\<close>

theorem execute_function_never_raises:
  "\<exists>r. execute_function cs name args = Inr r \<and> (success_result r \<or> failure_result r)"
proof (cases "execute_function_body cs name args")
  case (Inl e)
  then have "execute_function cs name args =
      Inr [(''success'', JBool False), (''error'', JStr (str_exn e))]"
    by (simp add: execute_function_def)
  moreover have "failure_result [(''success'', JBool False), (''error'', JStr (str_exn e))]"
    by (simp add: failure_result_def is_str_def)
  ultimately show ?thesis by blast
next
  case (Inr r)
  then have "execute_function cs name args = Inr r"
    by (simp add: execute_function_def)
  then show ?thesis using execute_function_body_shape [OF Inr] by blast
qed

theorem execute_function_never_raises_witness:
  "execute_function failing_service ''check_availability''
      [''start_time'' \<mapsto> JStr ''2024-01-15T10:00:00'', ''end_time'' \<mapsto> JStr ''2024-01-15T11:00:00''] =
     Inr [(''success'', JBool False),
          (''error'', JStr ''Failed to check availability: timeout'')] \<and>
   execute_function failing_service ''check_availability'' Map.empty =
     Inr [(''success'', JBool False), (''error'', JStr ([CHR 0x27] @ ''start_time'' @ [CHR 0x27]))] \<and>
   execute_function failing_service ''cancel_appointment'' Map.empty =
     Inr [(''success'', JBool False), (''error'', JStr ''Unknown function: cancel_appointment'')]"
  using execute_function_never_raises [of failing_service "''check_availability''" Map.empty]
  by (simp add: execute_function_def execute_function_body_def failing_service_def
      subscript_def)

end
